theory Spec2Isabelle
  imports
    Main
    "HOL-Library.FSet"
    "HOL-Library.Product_Lexorder"
    "HOL-Library.Sublist"
begin

section \<open>The durable queue (src/services/queue.service.ts)\<close>

text \<open>
  The queue keeps its rows in an external store (table \<open>AnalysisQueue\<close> of
  prisma/schema.prisma) and, in memory, the set \<open>processingItems\<close> of the repository
  URLs it has handed out. The table is modelled as the list of its rows in insertion
  order, time stamps as milliseconds (\<open>Date.getTime()\<close>), the in-memory \<open>Set<string>\<close>
  as a finite set.
\<close>

datatype QueueStatus = Q_PENDING | Q_PROCESSING | Q_COMPLETED | Q_FAILED | Q_CANCELLED

datatype AnalysisStatus =
  A_PENDING | A_QUEUED | A_IN_PROGRESS | A_COMPLETED | A_FAILED | A_CANCELLED

record queue_item =
  item_id :: string
  repositoryUrl :: string
  item_status :: QueueStatus
  priority :: int
  userId :: string
  createdAt :: int
  startedAt :: "int option"
  completedAt :: "int option"
  item_error :: "string option"

record queue_config =
  maxRetries_cfg :: int
  retryDelay :: int
  maxConcurrent :: int
  priorityLevels :: int
  defaultPriority :: int
  processingTimeout :: int

definition DEFAULT_CONFIG :: queue_config where
  "DEFAULT_CONFIG = \<lparr> maxRetries_cfg = 3, retryDelay = 5000, maxConcurrent = 5,
     priorityLevels = 5, defaultPriority = 2, processingTimeout = 300000 \<rparr>"

record queue_state =
  rows :: "queue_item list"
  processingItems :: "string fset"

text \<open>
  Every call into the store can throw. Which calls throw during one operation is a
  parameter of the operation: a predicate on the kind of call.
\<close>

datatype store_call =
  Create | FindFirst | FindUnique | Update | UpdateMany | DeleteMany | Count

definition noFaults :: "store_call \<Rightarrow> bool" where
  "noFaults c = False"

datatype queue_error =
  EnqueueFailed | DequeueFailed | UpdateStatusFailed | GetPositionFailed | RemoveFailed
  | ClearFailed | CancelFailed

text \<open>
  \<open>findFirst({where: {status: PENDING}, orderBy: [{priority: 'desc'}, {createdAt: 'asc'}]})\<close>:
  the rows with status PENDING, sorted by descending priority and then ascending
  creation time, and the first of them. The sort is stable, so among rows equal in
  both keys (an order the store leaves open) the model takes the one inserted first.
\<close>

definition orderKey :: "queue_item \<Rightarrow> int \<times> int" where
  "orderKey r = (- priority r, createdAt r)"

definition pendingRows :: "queue_item list \<Rightarrow> queue_item list" where
  "pendingRows rs = filter (\<lambda>r. item_status r = Q_PENDING) rs"

definition findFirstPending :: "queue_item list \<Rightarrow> queue_item option" where
  "findFirstPending rs =
     (case sort_key orderKey (pendingRows rs) of [] \<Rightarrow> None | r # _ \<Rightarrow> Some r)"

text \<open>\<open>update({where: {id}, data: {status: PROCESSING, startedAt: new Date()}})\<close>\<close>

definition markProcessing :: "string \<Rightarrow> int \<Rightarrow> queue_item list \<Rightarrow> queue_item list" where
  "markProcessing i now rs =
     map (\<lambda>r. if item_id r = i
               then r\<lparr>item_status := Q_PROCESSING, startedAt := Some now\<rparr> else r) rs"

text \<open>
  \<open>enqueue(repositoryUrl, userId)\<close>. The store gives the new row its id (\<open>newId\<close>, a
  uuid; a clash with the primary key makes the create fail) and \<open>createdAt = now\<close>.
\<close>

definition enqueue ::
  "queue_config \<Rightarrow> (store_call \<Rightarrow> bool) \<Rightarrow> string \<Rightarrow> int \<Rightarrow> string \<Rightarrow> string \<Rightarrow>
   queue_state \<Rightarrow> (queue_error + unit) \<times> queue_state" where
  "enqueue cfg fails newId now url uid st =
     (if fails Create \<or> newId \<in> item_id ` set (rows st) then (Inl EnqueueFailed, st)
      else (Inr (),
            st\<lparr>rows := rows st @
              [\<lparr> item_id = newId, repositoryUrl = url, item_status = Q_PENDING,
                 priority = defaultPriority cfg, userId = uid, createdAt = now,
                 startedAt = None, completedAt = None, item_error = None \<rparr>]\<rparr>))"

text \<open>\<open>dequeue()\<close>: the capacity test, the ordered query, the update, the set insertion.\<close>

definition dequeue ::
  "queue_config \<Rightarrow> (store_call \<Rightarrow> bool) \<Rightarrow> int \<Rightarrow> queue_state \<Rightarrow>
   (queue_error + string option) \<times> queue_state" where
  "dequeue cfg fails now st =
     (if maxConcurrent cfg \<le> int (fcard (processingItems st)) then (Inr None, st)
      else if fails FindFirst then (Inl DequeueFailed, st)
      else case findFirstPending (rows st) of
             None \<Rightarrow> (Inr None, st)
           | Some queueItem \<Rightarrow>
               if fails Update then (Inl DequeueFailed, st)
               else (Inr (Some (repositoryUrl queueItem)),
                     st\<lparr>rows := markProcessing (item_id queueItem) now (rows st),
                        processingItems :=
                          finsert (repositoryUrl queueItem) (processingItems st)\<rparr>))"

definition emptyQueue :: queue_state where
  "emptyQueue = \<lparr> rows = [], processingItems = {||} \<rparr>"

definition processingRows :: "queue_state \<Rightarrow> queue_item list" where
  "processingRows st = filter (\<lambda>r. item_status r = Q_PROCESSING) (rows st)"

text \<open>
  Examples: a queue of three PENDING rows with priorities 1, 5 and 3, and a
  configuration with a cap of two.
\<close>

definition mkRow :: "string \<Rightarrow> string \<Rightarrow> int \<Rightarrow> int \<Rightarrow> queue_item" where
  "mkRow i url p t =
     \<lparr> item_id = i, repositoryUrl = url, item_status = Q_PENDING, priority = p,
       userId = ''alice'', createdAt = t, startedAt = None, completedAt = None,
       item_error = None \<rparr>"

definition queue153 :: queue_state where
  "queue153 = \<lparr> rows = [mkRow ''1'' ''repo1'' 1 10, mkRow ''2'' ''repo5'' 5 20,
                          mkRow ''3'' ''repo3'' 3 30],
                 processingItems = {||} \<rparr>"

definition cfg2 :: queue_config where
  "cfg2 = DEFAULT_CONFIG\<lparr>maxConcurrent := 2\<rparr>"

text \<open>
  Three calls of \<open>enqueue\<close> for one repository URL on an empty queue (the table has
  no unique constraint on \<open>repositoryUrl\<close>), then three calls of \<open>dequeue\<close>; every call
  is awaited before the next one is made.
\<close>

definition sameUrlQueue :: queue_state where
  "sameUrlQueue =
     snd (enqueue cfg2 noFaults ''3'' 30 ''repo'' ''alice''
       (snd (enqueue cfg2 noFaults ''2'' 20 ''repo'' ''alice''
         (snd (enqueue cfg2 noFaults ''1'' 10 ''repo'' ''alice'' emptyQueue)))))"

definition afterFirst :: queue_state where
  "afterFirst = snd (dequeue cfg2 noFaults 40 sameUrlQueue)"

definition afterSecond :: queue_state where
  "afterSecond = snd (dequeue cfg2 noFaults 50 afterFirst)"

definition afterThird :: queue_state where
  "afterThird = snd (dequeue cfg2 noFaults 60 afterSecond)"

section \<open>The resource manager (ResourceManager, src/unnamed/part_002)\<close>

text \<open>
  JavaScript numbers are IEEE 754 doubles. A finite double is modelled as the rational it
  denotes; a division can also give \<open>Infinity\<close>, \<open>-Infinity\<close> or \<open>NaN\<close>, and every
  comparison with \<open>NaN\<close> is false. The arithmetic of the code (the three quotients, the
  difference of the memory sizes, the product of a limit and the buffer) rounds its
  results; the operations are parameters of the model, of which nothing is assumed.
\<close>

datatype jsnum = Fin rat | PosInf | NegInf | NaN

record arithmetic =
  divide_op :: "rat \<Rightarrow> rat \<Rightarrow> jsnum"
  minus_op :: "rat \<Rightarrow> rat \<Rightarrow> rat"
  times_op :: "rat \<Rightarrow> rat \<Rightarrow> rat"

fun js_lt :: "jsnum \<Rightarrow> rat \<Rightarrow> bool" where
  "js_lt (Fin x) t = (x < t)"
| "js_lt PosInf t = False"
| "js_lt NegInf t = True"
| "js_lt NaN t = False"

fun js_ge :: "jsnum \<Rightarrow> rat \<Rightarrow> bool" where
  "js_ge (Fin x) t = (t \<le> x)"
| "js_ge PosInf t = True"
| "js_ge NegInf t = False"
| "js_ge NaN t = False"

text \<open>
  The literals \<open>0.9\<close> and \<open>0.1\<close> denote the doubles nearest to them:
  \<open>8106479329266893 / 2 ^ 53\<close> and \<open>3602879701896397 / 2 ^ 55\<close>.
\<close>

definition STORAGE_CLEANUP_THRESHOLD :: rat where
  "STORAGE_CLEANUP_THRESHOLD = 8106479329266893 / 9007199254740992"

definition QUEUE_CLEANUP_AGE :: rat where
  "QUEUE_CLEANUP_AGE = 24 * 60 * 60 * 1000"

definition RATE_LIMIT_BUFFER :: rat where
  "RATE_LIMIT_BUFFER = 3602879701896397 / 36028797018963968"

definition SYSTEM_HEALTH_THRESHOLD :: rat where
  "SYSTEM_HEALTH_THRESHOLD = 8106479329266893 / 9007199254740992"

record IRateLimit =
  remaining :: int
  limit :: int

datatype ResourceErrorCode =
  STORAGE_FULL | QUEUE_FULL | RATE_LIMIT_EXCEEDED | RESOURCE_NOT_FOUND | RESOURCE_LOCKED
  | RESOURCE_INVALID | CLEANUP_FAILED | SYSTEM_ERROR

text \<open>A \<open>ResourceError\<close>: its message, its code and the itemized reasons of its details.\<close>

datatype ResourceError = ResourceError string ResourceErrorCode "string list"

text \<open>
  What one call of \<open>checkResources\<close> reads from its collaborators and from the host:
  the storage and queue metrics, the rate limits, the load average, the number of CPUs,
  the total and free memory; and which of the calls throw.
\<close>

record resource_inputs =
  totalSize :: rat
  totalQuota :: rat
  totalItems :: int
  processingItemsCount :: int
  queueMaxConcurrent :: int
  averageWaitTime :: rat
  limits :: "IRateLimit list"
  loadavg :: rat
  cpus :: nat
  totalmem :: rat
  freemem :: rat
  metricsThrow :: bool
  storageCleanupThrows :: bool
  queueCleanupThrows :: bool

record ResourceMetrics =
  available :: bool
  storagePercentage :: jsnum
  queueActive :: int
  queueMax :: int
  queueAverageWaitTime :: rat
  rateLimits :: "IRateLimit list"
  cpuUsage :: jsnum
  memoryUsage :: jsnum
  isHealthy :: bool

definition isRateLimitCritical :: "arithmetic \<Rightarrow> IRateLimit \<Rightarrow> bool" where
  "isRateLimitCritical ar l =
     (let buffer = \<lceil>times_op ar (of_int (limit l)) RATE_LIMIT_BUFFER\<rceil>
      in remaining l \<le> buffer)"

text \<open>The four sub-checks of \<open>checkResources\<close>, on the metrics it has gathered.\<close>

definition isStorageAvailable :: "ResourceMetrics \<Rightarrow> bool" where
  "isStorageAvailable m = js_lt (storagePercentage m) STORAGE_CLEANUP_THRESHOLD"

definition isQueueAvailable :: "ResourceMetrics \<Rightarrow> bool" where
  "isQueueAvailable m = (queueActive m < queueMax m)"

definition areRateLimitsAvailable :: "arithmetic \<Rightarrow> ResourceMetrics \<Rightarrow> bool" where
  "areRateLimitsAvailable ar m = list_all (\<lambda>l. \<not> isRateLimitCritical ar l) (rateLimits m)"

definition isSystemHealthy :: "ResourceMetrics \<Rightarrow> bool" where
  "isSystemHealthy m = isHealthy m"

definition gatherMetrics :: "arithmetic \<Rightarrow> resource_inputs \<Rightarrow> ResourceMetrics" where
  "gatherMetrics ar inp =
     (let cpu = divide_op ar (loadavg inp) (of_nat (cpus inp));
          mem = divide_op ar (minus_op ar (totalmem inp) (freemem inp)) (totalmem inp)
      in \<lparr> available = False,
           storagePercentage = divide_op ar (totalSize inp) (totalQuota inp),
           queueActive = processingItemsCount inp,
           queueMax = queueMaxConcurrent inp,
           queueAverageWaitTime = averageWaitTime inp,
           rateLimits = limits inp,
           cpuUsage = cpu,
           memoryUsage = mem,
           isHealthy = (js_lt cpu SYSTEM_HEALTH_THRESHOLD \<and> js_lt mem SYSTEM_HEALTH_THRESHOLD) \<rparr>)"

text \<open>
  \<open>checkResources()\<close>. Anything thrown inside its \<open>try\<close> (by the metric calls, or by a
  cleanup, which throws \<open>CLEANUP_FAILED\<close>) is caught and thrown again as
  \<open>SYSTEM_ERROR\<close>. What the cleanups do to the storage, the queue and the cache is
  outside this model; only whether they throw is in it.
\<close>

definition checkFailed :: ResourceError where
  "checkFailed = ResourceError ''Failed to check resources'' SYSTEM_ERROR []"

definition checkResources ::
  "arithmetic \<Rightarrow> resource_inputs \<Rightarrow> ResourceError + ResourceMetrics" where
  "checkResources ar inp =
     (if metricsThrow inp then Inl checkFailed
      else
        let m0 = gatherMetrics ar inp;
            metrics = m0\<lparr>available :=
              (isStorageAvailable m0 \<and> isQueueAvailable m0 \<and> areRateLimitsAvailable ar m0
               \<and> isSystemHealthy m0)\<rparr>
        in if \<not> isStorageAvailable m0 \<and> storageCleanupThrows inp then Inl checkFailed
           else if QUEUE_CLEANUP_AGE < queueAverageWaitTime metrics \<and> queueCleanupThrows inp
             then Inl checkFailed
           else Inr metrics)"

text \<open>
  \<open>validateResources(repositoryUrl)\<close>. A \<open>ResourceError\<close> from \<open>checkResources\<close> passes
  through the \<open>catch\<close> unchanged; the function has no \<open>return false\<close>.
\<close>

definition reasons :: "ResourceMetrics \<Rightarrow> string list" where
  "reasons m =
     (if js_ge (storagePercentage m) STORAGE_CLEANUP_THRESHOLD then [''Storage quota exceeded'']
      else []) @
     (if queueMax m \<le> queueActive m then [''Queue capacity reached''] else []) @
     (if \<not> isHealthy m then [''System resources constrained''] else [])"

definition validateResources ::
  "arithmetic \<Rightarrow> resource_inputs \<Rightarrow> string \<Rightarrow> ResourceError + bool" where
  "validateResources ar inp url =
     (case checkResources ar inp of
        Inl e \<Rightarrow> Inl e
      | Inr metrics \<Rightarrow>
          if \<not> available metrics
          then Inl (ResourceError ''Resources not available'' RESOURCE_INVALID (reasons metrics))
          else Inr True)"

text \<open>
  Examples: a healthy host with a store at 15/16 of its quota, and the same at a half.
  Every quotient, difference and product of these inputs is a double (sixteenths,
  quarters, and \<open>4096 * 0.1\<close>, a shift of the double \<open>0.1\<close>), so the exact operations
  give what the code computes on them.
\<close>

definition exactArithmetic :: arithmetic where
  "exactArithmetic =
     \<lparr> divide_op = (\<lambda>a b. if b \<noteq> 0 then Fin (a / b)
                            else if 0 < a then PosInf else if a < 0 then NegInf else NaN),
       minus_op = (\<lambda>a b. a - b),
       times_op = (\<lambda>a b. a * b) \<rparr>"

definition fullStorage :: resource_inputs where
  "fullStorage =
     \<lparr> totalSize = 15, totalQuota = 16, totalItems = 3, processingItemsCount = 1,
       queueMaxConcurrent = 5, averageWaitTime = 1000,
       limits = [\<lparr> remaining = 4000, limit = 4096 \<rparr>],
       loadavg = 1, cpus = 4, totalmem = 16, freemem = 8,
       metricsThrow = False, storageCleanupThrows = False, queueCleanupThrows = False \<rparr>"

definition healthyInputs :: resource_inputs where
  "healthyInputs = fullStorage\<lparr>totalSize := 8\<rparr>"

text \<open>The same full store with a storage cleanup that throws.\<close>

definition failingCleanup :: resource_inputs where
  "failingCleanup = fullStorage\<lparr>storageCleanupThrows := True\<rparr>"

section \<open>The cache (CacheService, src/services/repository-processing/repository-manager.ts)\<close>

text \<open>
  The cache is a \<open>Map\<close> from keys to entries; an entry keeps the value, the time it was
  stored at and its time to live, both in milliseconds. \<open>new Date()\<close> is the parameter
  \<open>now\<close> of every operation that reads the clock.
\<close>

record 'a CacheEntry =
  data :: 'a
  timestamp :: int
  ttl :: int

type_synonym 'a cache = "string \<rightharpoonup> 'a CacheEntry"

definition DEFAULT_TTL :: int where
  "DEFAULT_TTL = 24 * 60 * 60 * 1000"

definition isExpired :: "'a CacheEntry \<Rightarrow> int \<Rightarrow> bool" where
  "isExpired entry now = (let expiryTime = timestamp entry + ttl entry in expiryTime < now)"

definition set_cache :: "string \<Rightarrow> 'a \<Rightarrow> int \<Rightarrow> int \<Rightarrow> 'a cache \<Rightarrow> 'a cache" where
  "set_cache key v t now c = c(key \<mapsto> \<lparr> data = v, timestamp = now, ttl = t \<rparr>)"

definition get_cache :: "string \<Rightarrow> int \<Rightarrow> 'a cache \<Rightarrow> 'a option \<times> 'a cache" where
  "get_cache key now c =
     (case c key of
        None \<Rightarrow> (None, c)
      | Some entry \<Rightarrow>
          if isExpired entry now then (None, c(key := None)) else (Some (data entry), c))"

definition delete_cache :: "string \<Rightarrow> 'a cache \<Rightarrow> 'a cache" where
  "delete_cache key c = c(key := None)"

definition invalidateAll :: "string \<Rightarrow> 'a cache \<Rightarrow> 'a cache" where
  "invalidateAll url c = (\<lambda>key. if prefix (''repo:'' @ url @ '':'') key then None else c key)"

definition invalidateProgress :: "string \<Rightarrow> 'a cache \<Rightarrow> 'a cache" where
  "invalidateProgress url c = delete_cache (''repo:'' @ url @ '':progress'') c"

definition cacheProgress :: "string \<Rightarrow> 'a \<Rightarrow> int \<Rightarrow> 'a cache \<Rightarrow> 'a cache" where
  "cacheProgress url p now c = set_cache (''progress:'' @ url) p 3600 now c"

section \<open>The status manager (src/services/repository-processing/status-manager.ts)\<close>

text \<open>
  The status manager owns three maps (progress records, retry strategies, retry
  counters) and writes through to the notification service and the cache. Its state is
  those maps together with what it has written: the list of notifications sent, the
  progress cache, and the timers its retry strategies have awaited. An \<open>Error\<close> is
  modelled by its message, an analysis result by an opaque string, a progress value by
  an integer.
\<close>

record IAnalysisProgress =
  progress_id :: string
  progress_url :: string
  status :: AnalysisStatus
  progress :: int
  currentStep :: string
  startTime :: int
  lastUpdate :: int
  progress_completedAt :: "int option"
  result :: "string option"
  error :: "string option"

datatype NotificationType =
  ANALYSIS_START | ANALYSIS_PROGRESS | ANALYSIS_COMPLETE | ANALYSIS_ERROR | ANALYSIS_RETRY
  | QUEUE_UPDATE

datatype payload =
  NoPayload | ProgressValue int | ResultValue string | ErrorMessage string | Position int

text \<open>A notification: its type, the repository URL and payload of its metadata, its time.\<close>

datatype notification = Notification NotificationType string payload int

record status_manager =
  progressMap :: "string \<rightharpoonup> IAnalysisProgress"
  retryAttempts :: "string \<rightharpoonup> nat"
  notifications :: "notification list"
  progressCache :: "int cache"
  timers :: "rat list"

text \<open>
  A retry strategy. \<open>onRetry\<close> gets the attempt number and the draw of \<open>Math.random()\<close>
  and either throws (\<open>Inl\<close>) or returns after the timer it awaited, if any.
\<close>

record ErrorRecoveryStrategy =
  maxRetries :: nat
  backoffTime :: nat
  shouldRetry :: "string \<Rightarrow> bool"
  onRetry :: "nat \<Rightarrow> rat \<Rightarrow> string + rat option"

definition calculateBackoff :: "nat \<Rightarrow> rat \<Rightarrow> rat" where
  "calculateBackoff attempt rnd =
     (let base = min (1000 * 2 ^ attempt) 30000;
          jitter = rnd * 1000
      in base + jitter)"

text \<open>\<open>message.includes(s)\<close>: \<open>s\<close> occurs in the message as a contiguous substring.\<close>

definition message_includes :: "string \<Rightarrow> string \<Rightarrow> bool" where
  "message_includes message s = sublist s message"

definition RATE_LIMIT :: ErrorRecoveryStrategy where
  "RATE_LIMIT =
     \<lparr> maxRetries = 3, backoffTime = 60000,
       shouldRetry = (\<lambda>message. message_includes message ''rate limit''),
       onRetry = (\<lambda>attempt rnd. Inr (Some (calculateBackoff attempt rnd))) \<rparr>"

definition NETWORK :: ErrorRecoveryStrategy where
  "NETWORK =
     \<lparr> maxRetries = 5, backoffTime = 5000,
       shouldRetry = (\<lambda>message. message_includes message ''network''),
       onRetry = (\<lambda>attempt rnd. Inr (Some 5000)) \<rparr>"

definition STORAGE :: ErrorRecoveryStrategy where
  "STORAGE =
     \<lparr> maxRetries = 2, backoffTime = 10000,
       shouldRetry = (\<lambda>message. message_includes message ''storage''),
       onRetry = (\<lambda>attempt rnd. Inr None) \<rparr>"

text \<open>The strategies in the order \<open>initializeRetryStrategies\<close> registers them.\<close>

definition retryStrategies :: "(string \<times> ErrorRecoveryStrategy) list" where
  "retryStrategies = [(''RATE_LIMIT'', RATE_LIMIT), (''NETWORK'', NETWORK), (''STORAGE'', STORAGE)]"

definition findRetryStrategy :: "string \<Rightarrow> ErrorRecoveryStrategy option" where
  "findRetryStrategy err = find (\<lambda>strategy. shouldRetry strategy err) (map snd retryStrategies)"

definition initializeProgress :: "string \<Rightarrow> int \<Rightarrow> status_manager \<Rightarrow> status_manager" where
  "initializeProgress url now st =
     st\<lparr>progressMap := (progressMap st)(url \<mapsto>
            \<lparr> progress_id = url, progress_url = url, status = A_PENDING, progress = 0,
              currentStep = ''Initializing'', startTime = now, lastUpdate = now,
              progress_completedAt = None, result = None, error = None \<rparr>),
        progressCache := cacheProgress url 0 now (progressCache st),
        notifications := notifications st @ [Notification ANALYSIS_START url NoPayload now]\<rparr>"

text \<open>
  \<open>updateProgress(repositoryUrl, progress, status?)\<close>. \<open>pos\<close> is what
  \<open>queueService.getPosition\<close> answers if it is called: a position, or a throw, which
  leaves \<open>updateProgress\<close> after the record, the cache and the progress notification
  have been written.
\<close>

definition updateProgress ::
  "string \<Rightarrow> int \<Rightarrow> AnalysisStatus option \<Rightarrow> queue_error + int \<Rightarrow> int \<Rightarrow> status_manager \<Rightarrow>
   (queue_error + unit) \<times> status_manager" where
  "updateProgress url p s pos now st =
     (case progressMap st url of
        None \<Rightarrow> (Inr (), st)
      | Some currentProgress \<Rightarrow>
          let updated = currentProgress\<lparr>progress := p,
                status := (case s of None \<Rightarrow> status currentProgress | Some s' \<Rightarrow> s')\<rparr>;
              st1 = st\<lparr>progressMap := (progressMap st)(url \<mapsto> updated),
                      progressCache := cacheProgress url p now (progressCache st),
                      notifications :=
                        notifications st @ [Notification ANALYSIS_PROGRESS url (ProgressValue p) now]\<rparr>
          in if s = Some A_IN_PROGRESS
             then (case pos of
                     Inl e \<Rightarrow> (Inl e, st1)
                   | Inr position \<Rightarrow>
                       (Inr (), st1\<lparr>notifications :=
                          notifications st1 @ [Notification QUEUE_UPDATE url (Position position) now]\<rparr>))
             else (Inr (), st1))"

definition completeAnalysis :: "string \<Rightarrow> string \<Rightarrow> int \<Rightarrow> status_manager \<Rightarrow> status_manager" where
  "completeAnalysis url res now st =
     (case progressMap st url of
        None \<Rightarrow> st
      | Some p \<Rightarrow>
          st\<lparr>progressMap := (progressMap st)(url \<mapsto>
                 p\<lparr>status := A_COMPLETED, progress := 100, progress_completedAt := Some now,
                   result := Some res\<rparr>),
             progressCache := cacheProgress url 100 now (progressCache st),
             notifications :=
               notifications st @ [Notification ANALYSIS_COMPLETE url (ResultValue res) now]\<rparr>)"

definition markAsFailed :: "string \<Rightarrow> string \<Rightarrow> int \<Rightarrow> status_manager \<Rightarrow> status_manager" where
  "markAsFailed url err now st =
     (case progressMap st url of
        None \<Rightarrow> st
      | Some p \<Rightarrow>
          st\<lparr>progressMap := (progressMap st)(url \<mapsto> p\<lparr>status := A_FAILED, error := Some err\<rparr>),
             notifications :=
               notifications st @ [Notification ANALYSIS_ERROR url (ErrorMessage err) now],
             progressCache := invalidateProgress url (progressCache st)\<rparr>)"

text \<open>
  \<open>handleError(repositoryUrl, error)\<close>: the result is whether to retry.
  \<open>retryAttempts.get(url) || 0\<close> reads a missing counter as 0.
\<close>

definition handleError ::
  "string \<Rightarrow> string \<Rightarrow> rat \<Rightarrow> int \<Rightarrow> status_manager \<Rightarrow> bool \<times> status_manager" where
  "handleError url err rnd now st =
     (case progressMap st url of
        None \<Rightarrow> (False, st)
      | Some p \<Rightarrow>
          (case findRetryStrategy err of
             None \<Rightarrow> (False, markAsFailed url err now st)
           | Some strategy \<Rightarrow>
               let attempts = (case retryAttempts st url of None \<Rightarrow> 0 | Some n \<Rightarrow> n)
               in if maxRetries strategy \<le> attempts then (False, markAsFailed url err now st)
                  else
                    let st1 = st\<lparr>retryAttempts := (retryAttempts st)(url \<mapsto> attempts + 1)\<rparr>
                    in (case onRetry strategy (attempts + 1) rnd of
                          Inl retryError \<Rightarrow> (False, markAsFailed url retryError now st1)
                        | Inr None \<Rightarrow> (True, st1)
                        | Inr (Some delay) \<Rightarrow> (True, st1\<lparr>timers := timers st1 @ [delay]\<rparr>))))"

definition attemptsOf :: "status_manager \<Rightarrow> string \<Rightarrow> nat" where
  "attemptsOf st url = (case retryAttempts st url of None \<Rightarrow> 0 | Some n \<Rightarrow> n)"

definition cleanup :: "string \<Rightarrow> status_manager \<Rightarrow> status_manager" where
  "cleanup url st =
     st\<lparr>progressMap := (progressMap st)(url := None),
        retryAttempts := (retryAttempts st)(url := None),
        progressCache := invalidateProgress url (progressCache st)\<rparr>"

text \<open>A client of the status manager is a sequence of calls.\<close>

datatype sm_op =
    Initialize string int
  | UpdateProgress string int "AnalysisStatus option" "queue_error + int" int
  | CompleteAnalysis string string int
  | HandleError string string rat int
  | Cleanup string

fun applySm :: "sm_op \<Rightarrow> status_manager \<Rightarrow> status_manager" where
  "applySm (Initialize url now) st = initializeProgress url now st"
| "applySm (UpdateProgress url p s pos now) st = snd (updateProgress url p s pos now st)"
| "applySm (CompleteAnalysis url res now) st = completeAnalysis url res now st"
| "applySm (HandleError url err rnd now) st = snd (handleError url err rnd now st)"
| "applySm (Cleanup url) st = cleanup url st"

fun runSm :: "sm_op list \<Rightarrow> status_manager \<Rightarrow> status_manager" where
  "runSm [] st = st"
| "runSm (op # ops) st = runSm ops (applySm op st)"

text \<open>The answers of successive calls of \<open>handleError\<close> for one subject.\<close>

fun handleErrors ::
  "string \<Rightarrow> (string \<times> rat \<times> int) list \<Rightarrow> status_manager \<Rightarrow> bool list \<times> status_manager" where
  "handleErrors url [] st = ([], st)"
| "handleErrors url ((err, rnd, now) # es) st =
     (let (retry, st1) = handleError url err rnd now st;
          (retries, st2) = handleErrors url es st1
      in (retry # retries, st2))"

definition newManager :: status_manager where
  "newManager = \<lparr> progressMap = Map.empty, retryAttempts = Map.empty, notifications = [],
                  progressCache = Map.empty, timers = [] \<rparr>"

text \<open>
  What a poller sees of a subject: its progress and status. \<open>progressAfter\<close> is the
  progress seen after each of a sequence of calls of \<open>updateProgress\<close> for it.
\<close>

definition observe :: "status_manager \<Rightarrow> string \<Rightarrow> (int \<times> AnalysisStatus) option" where
  "observe st url = map_option (\<lambda>p. (progress p, status p)) (progressMap st url)"

fun progressAfter ::
  "string \<Rightarrow> (int \<times> AnalysisStatus option \<times> (queue_error + int) \<times> int) list \<Rightarrow> status_manager \<Rightarrow>
   int option list" where
  "progressAfter url [] st = []"
| "progressAfter url ((v, s, pos, now) # calls) st =
     (let st1 = snd (updateProgress url v s pos now st)
      in map_option progress (progressMap st1 url) # progressAfter url calls st1)"

definition terminalStatus :: "AnalysisStatus \<Rightarrow> bool" where
  "terminalStatus s = (s \<in> set [A_COMPLETED, A_FAILED, A_CANCELLED])"

definition hundredOnlyTerminal :: "status_manager \<Rightarrow> string \<Rightarrow> bool" where
  "hundredOnlyTerminal st url =
     (case progressMap st url of
        None \<Rightarrow> True
      | Some p \<Rightarrow> progress p = 100 \<longrightarrow> terminalStatus (status p))"

text \<open>A call that passes the progress value 100 to \<open>updateProgress\<close> with no terminal status.\<close>

fun passes100 :: "sm_op \<Rightarrow> bool" where
  "passes100 (UpdateProgress url v s pos now) =
     (v = 100 \<and> (case s of None \<Rightarrow> True | Some t \<Rightarrow> \<not> terminalStatus t))"
| "passes100 op = False"

text \<open>
  Examples: a subject that has just been initialized, five rate-limit errors for it, and
  network errors, which match the class NETWORK (\<open>maxRetries = 5\<close>).
\<close>

definition freshRepo :: status_manager where
  "freshRepo = initializeProgress ''repo'' 0 newManager"

definition rateLimitError :: string where
  "rateLimitError = ''API rate limit exceeded''"

definition fiveErrors :: "(string \<times> rat \<times> int) list" where
  "fiveErrors = [(rateLimitError, 0, 1), (rateLimitError, 1 / 2, 2), (rateLimitError, 1 / 4, 3),
                 (rateLimitError, 0, 4), (rateLimitError, 3 / 4, 5)]"

definition networkError :: string where
  "networkError = ''network timeout''"

definition twoNetworkErrors :: "(string \<times> rat \<times> int) list" where
  "twoNetworkErrors = [(networkError, 0, 1), (networkError, 0, 2)]"

definition threeErrors :: "(string \<times> rat \<times> int) list" where
  "threeErrors = [(rateLimitError, 0, 3), (rateLimitError, 1 / 2, 4), (rateLimitError, 1 / 4, 5)]"

text \<open>The subject after two retried network errors, and after the five rate-limit errors.\<close>

definition afterNetwork :: status_manager where
  "afterNetwork = snd (handleErrors ''repo'' twoNetworkErrors freshRepo)"

definition exhausted :: status_manager where
  "exhausted = snd (handleErrors ''repo'' fiveErrors freshRepo)"

definition laterCalls :: "sm_op list" where
  "laterCalls = [UpdateProgress ''repo'' 40 None (Inr 1) 6, Initialize ''repo'' 7,
                 Cleanup ''other'']"

definition threeUpdates :: "(int \<times> AnalysisStatus option \<times> (queue_error + int) \<times> int) list" where
  "threeUpdates = [(10, None, Inr 1, 1), (20, Some A_IN_PROGRESS, Inr 1, 2), (80, None, Inr 1, 3)]"

definition usualCalls :: "sm_op list" where
  "usualCalls = [UpdateProgress ''repo'' 50 (Some A_IN_PROGRESS) (Inr 1) 1,
                 CompleteAnalysis ''repo'' ''result'' 2,
                 HandleError ''repo'' ''unknown failure'' 0 3]"

section \<open>Calls of enqueue with a priority\<close>

text \<open>
  A JavaScript call \<open>enqueue(repositoryUrl, userId, priority)\<close> with a third argument, as
  \<open>AnalysisOrchestrator.startAnalysis\<close> (src/services/repository.service.ts) writes it.
  \<open>QueueService.enqueue\<close> and \<open>IQueueService.enqueue\<close> declare two parameters, so the
  call binds the first two arguments and the third, given or not, is dropped.
\<close>

definition enqueueCall ::
  "queue_config \<Rightarrow> (store_call \<Rightarrow> bool) \<Rightarrow> string \<Rightarrow> int \<Rightarrow> string \<Rightarrow> string \<Rightarrow> int option \<Rightarrow>
   queue_state \<Rightarrow> (queue_error + unit) \<times> queue_state" where
  "enqueueCall cfg fails newId now url uid priorityArg st = enqueue cfg fails newId now url uid st"

text \<open>The row that \<open>enqueue\<close> creates.\<close>

definition pendingRow :: "queue_config \<Rightarrow> string \<Rightarrow> int \<Rightarrow> string \<Rightarrow> string \<Rightarrow> queue_item" where
  "pendingRow cfg newId now url uid =
     \<lparr> item_id = newId, repositoryUrl = url, item_status = Q_PENDING,
       priority = defaultPriority cfg, userId = uid, createdAt = now,
       startedAt = None, completedAt = None, item_error = None \<rparr>"

text \<open>A queue whose only row has priority 1, below the default priority 2.\<close>

definition lowQueue :: queue_state where
  "lowQueue = \<lparr> rows = [mkRow ''1'' ''repo1'' 1 10], processingItems = {||} \<rparr>"

section \<open>The pipeline (PipelineManager, src/services/repository-processing/repository-manager.ts)\<close>




















section \<open>Properties of the queue\<close>

subsection \<open>The ordered query\<close>

lemma findFirstPending_None:
  "findFirstPending rs = None \<longleftrightarrow> pendingRows rs = []"
proof -
  have "sort_key orderKey (pendingRows rs) = [] \<longleftrightarrow> pendingRows rs = []"
    by (metis length_0_conv length_sort)
  then show ?thesis
    by (cases "sort_key orderKey (pendingRows rs)") (simp_all add: findFirstPending_def)
qed

lemma findFirstPending_Some:
  assumes "findFirstPending rs = Some q"
  shows "q \<in> set rs \<and> item_status q = Q_PENDING \<and>
         (\<forall>r \<in> set rs. item_status r = Q_PENDING \<longrightarrow> orderKey q \<le> orderKey r)"
proof -
  from assms obtain qs where srt: "sort_key orderKey (pendingRows rs) = q # qs"
    by (auto simp: findFirstPending_def split: list.splits)
  have mem: "set (q # qs) = set (pendingRows rs)"
    using srt by (metis set_sort)
  have "sorted (map orderKey (q # qs))"
    using srt by (metis sorted_sort_key)
  then have least: "\<forall>r \<in> set (q # qs). orderKey q \<le> orderKey r"
    by auto
  from mem have "q \<in> set (pendingRows rs)" by auto
  with mem least show ?thesis
    by (auto simp: pendingRows_def)
qed

lemma orderKey_le:
  "orderKey q \<le> orderKey r \<longleftrightarrow>
     priority r < priority q \<or> (priority r = priority q \<and> createdAt q \<le> createdAt r)"
  by (auto simp: orderKey_def)


lemmas queue_eval =
  queue153_def mkRow_def DEFAULT_CONFIG_def noFaults_def cfg2_def
  emptyQueue_def enqueue_def dequeue_def findFirstPending_def pendingRows_def orderKey_def
  markProcessing_def processingRows_def fcard_fempty fcard_finsert_if


subsection \<open>The concurrency cap\<close>

lemma dequeue_at_cap:
  "maxConcurrent cfg \<le> int (fcard (processingItems st)) \<Longrightarrow>
     dequeue cfg fails now st = (Inr None, st)"
  by (simp add: dequeue_def)

lemma sameUrlQueue_rows:
  "rows sameUrlQueue =
     [mkRow ''1'' ''repo'' 2 10, mkRow ''2'' ''repo'' 2 20, mkRow ''3'' ''repo'' 2 30] \<and>
   processingItems sameUrlQueue = {||}"
  by (simp add: sameUrlQueue_def queue_eval)

lemma afterFirst_rows:
  "fst (dequeue cfg2 noFaults 40 sameUrlQueue) = Inr (Some ''repo'') \<and>
   rows afterFirst =
     [(mkRow ''1'' ''repo'' 2 10)\<lparr>item_status := Q_PROCESSING, startedAt := Some 40\<rparr>,
      mkRow ''2'' ''repo'' 2 20, mkRow ''3'' ''repo'' 2 30] \<and>
   processingItems afterFirst = {|''repo''|}"
  unfolding afterFirst_def
  by (simp add: sameUrlQueue_rows dequeue_def findFirstPending_def pendingRows_def orderKey_def
        markProcessing_def mkRow_def cfg2_def DEFAULT_CONFIG_def noFaults_def fcard_fempty)

lemma afterSecond_rows:
  "fst (dequeue cfg2 noFaults 50 afterFirst) = Inr (Some ''repo'') \<and>
   rows afterSecond =
     [(mkRow ''1'' ''repo'' 2 10)\<lparr>item_status := Q_PROCESSING, startedAt := Some 40\<rparr>,
      (mkRow ''2'' ''repo'' 2 20)\<lparr>item_status := Q_PROCESSING, startedAt := Some 50\<rparr>,
      mkRow ''3'' ''repo'' 2 30] \<and>
   processingItems afterSecond = {|''repo''|}"
  unfolding afterSecond_def
  by (simp add: afterFirst_rows dequeue_def findFirstPending_def pendingRows_def orderKey_def
        markProcessing_def mkRow_def cfg2_def DEFAULT_CONFIG_def noFaults_def
        fcard_fempty fcard_finsert_if)

text \<open>
  C2. The code does not keep the cap. \<open>processingItems\<close> is a set of repository URLs and
  the capacity test reads its size, so a row whose URL is already in the set does not
  raise the count. With \<open>maxConcurrent = 2\<close> and three PENDING rows of one URL, three
  successive calls of dequeue each return the URL, the store holds three rows in status
  PROCESSING, and the set holds one element.
\<close>

theorem processing_rows_exceed_cap:
  "maxConcurrent cfg2 = 2 \<and>
   length (pendingRows (rows sameUrlQueue)) = 3 \<and>
   fst (dequeue cfg2 noFaults 40 sameUrlQueue) = Inr (Some ''repo'') \<and>
   fst (dequeue cfg2 noFaults 50 afterFirst) = Inr (Some ''repo'') \<and>
   fst (dequeue cfg2 noFaults 60 afterSecond) = Inr (Some ''repo'') \<and>
   length (processingRows afterThird) = 3 \<and>
   fcard (processingItems afterThird) = 1"
proof -
  have third: "fst (dequeue cfg2 noFaults 60 afterSecond) = Inr (Some ''repo'') \<and>
      length (processingRows afterThird) = 3 \<and> fcard (processingItems afterThird) = 1"
    unfolding afterThird_def
    by (simp add: afterSecond_rows dequeue_def findFirstPending_def pendingRows_def orderKey_def
          markProcessing_def mkRow_def cfg2_def DEFAULT_CONFIG_def noFaults_def
          processingRows_def fcard_fempty fcard_finsert_if)
  have "maxConcurrent cfg2 = 2" and "length (pendingRows (rows sameUrlQueue)) = 3"
    by (simp_all add: sameUrlQueue_rows pendingRows_def mkRow_def cfg2_def DEFAULT_CONFIG_def)
  with third afterFirst_rows afterSecond_rows show ?thesis by simp
qed

section \<open>Properties of the resource manager\<close>

lemmas resource_eval =
  fullStorage_def healthyInputs_def failingCleanup_def exactArithmetic_def
  validateResources_def checkResources_def checkFailed_def gatherMetrics_def
  isStorageAvailable_def isQueueAvailable_def areRateLimitsAvailable_def isSystemHealthy_def
  isRateLimitCritical_def reasons_def STORAGE_CLEANUP_THRESHOLD_def
  QUEUE_CLEANUP_AGE_def RATE_LIMIT_BUFFER_def SYSTEM_HEALTH_THRESHOLD_def Let_def

text \<open>
  C3 as stated fails: validateResources has no way to return false. With the store at
  15/16 of its quota and everything else in order it throws \<open>RESOURCE_INVALID\<close>.
\<close>

theorem validateResources_throws_at_full_storage:
  "js_ge (divide_op exactArithmetic (totalSize fullStorage) (totalQuota fullStorage))
     STORAGE_CLEANUP_THRESHOLD \<and>
   validateResources exactArithmetic fullStorage ''repo'' =
     Inl (ResourceError ''Resources not available'' RESOURCE_INVALID [''Storage quota exceeded'']) \<and>
   validateResources exactArithmetic fullStorage ''repo'' \<noteq> Inr False"
  by (simp add: resource_eval)

lemma js_ge_not_lt: "js_ge x t \<Longrightarrow> \<not> js_lt x t"
  by (cases x) auto

lemma checkResources_available:
  assumes "checkResources ar inp = Inr m"
  shows "available m =
     (isStorageAvailable m \<and> isQueueAvailable m \<and> areRateLimitsAvailable ar m \<and>
      isSystemHealthy m)"
    and "storagePercentage m = divide_op ar (totalSize inp) (totalQuota inp)"
    and "queueActive m = processingItemsCount inp" and "queueMax m = queueMaxConcurrent inp"
    and "rateLimits m = limits inp"
    and "isHealthy m =
         (js_lt (divide_op ar (loadavg inp) (of_nat (cpus inp))) SYSTEM_HEALTH_THRESHOLD \<and>
          js_lt (divide_op ar (minus_op ar (totalmem inp) (freemem inp)) (totalmem inp))
            SYSTEM_HEALTH_THRESHOLD)"
  using assms
  by (auto simp: checkResources_def Let_def gatherMetrics_def isStorageAvailable_def
      isQueueAvailable_def areRateLimitsAvailable_def isSystemHealthy_def split: if_splits)

lemma validateResources_full:
  assumes ge: "js_ge (divide_op ar (totalSize inp) (totalQuota inp)) STORAGE_CLEANUP_THRESHOLD"
  shows "validateResources ar inp url =
      (if metricsThrow inp \<or> storageCleanupThrows inp \<or>
          (QUEUE_CLEANUP_AGE < averageWaitTime inp \<and> queueCleanupThrows inp)
       then Inl (ResourceError ''Failed to check resources'' SYSTEM_ERROR [])
       else Inl (ResourceError ''Resources not available'' RESOURCE_INVALID
              (''Storage quota exceeded'' #
               (if queueMaxConcurrent inp \<le> processingItemsCount inp
                then [''Queue capacity reached''] else []) @
               (if isHealthy (gatherMetrics ar inp) then []
                else [''System resources constrained'']))))"
proof -
  have pct: "storagePercentage (gatherMetrics ar inp) =
      divide_op ar (totalSize inp) (totalQuota inp)"
    by (simp add: gatherMetrics_def Let_def)
  from ge have full: "\<not> isStorageAvailable (gatherMetrics ar inp)"
    by (simp add: isStorageAvailable_def pct js_ge_not_lt)
  have fields: "queueMax (gatherMetrics ar inp) = queueMaxConcurrent inp"
    "queueActive (gatherMetrics ar inp) = processingItemsCount inp"
    "queueAverageWaitTime (gatherMetrics ar inp) = averageWaitTime inp"
    by (simp_all add: gatherMetrics_def Let_def)
  show ?thesis
    using full ge
    by (simp add: validateResources_def checkResources_def checkFailed_def reasons_def pct
        fields Let_def)
qed

text \<open>
  C3, amended. validateResources never returns false. Whenever the storage usage
  percentage is at least 0.9 it throws a \<open>ResourceError\<close>, whatever the other metrics
  are: \<open>SYSTEM_ERROR\<close> (``Failed to check resources'') if the metric calls throw, the
  storage cleanup throws, or the average wait time is above 24 hours and the queue
  cleanup throws; otherwise \<open>RESOURCE_INVALID\<close> (``Resources not available'') with the
  reasons ``Storage quota exceeded'', then ``Queue capacity reached'' if the active
  processing count is not below maxConcurrent, then ``System resources constrained'' if
  the system is not healthy. It returns true only when all four sub-checks pass (storage
  below 0.9, active processing below maxConcurrent, every rate limit above the ceiling
  of 10% of its limit, CPU load and memory use both below 0.9); and the \<open>available\<close>
  field of the metrics that checkResources returns is the conjunction of the four
  sub-checks.
\<close>

theorem validateResources_gate:
  "validateResources ar inp url \<noteq> Inr False \<and>
   (js_ge (divide_op ar (totalSize inp) (totalQuota inp)) STORAGE_CLEANUP_THRESHOLD \<longrightarrow>
      validateResources ar inp url =
        (if metricsThrow inp \<or> storageCleanupThrows inp \<or>
            (QUEUE_CLEANUP_AGE < averageWaitTime inp \<and> queueCleanupThrows inp)
         then Inl (ResourceError ''Failed to check resources'' SYSTEM_ERROR [])
         else Inl (ResourceError ''Resources not available'' RESOURCE_INVALID
                (''Storage quota exceeded'' #
                 (if queueMaxConcurrent inp \<le> processingItemsCount inp
                  then [''Queue capacity reached''] else []) @
                 (if isHealthy (gatherMetrics ar inp) then []
                  else [''System resources constrained''])))) \<and>
      isHealthy (gatherMetrics ar inp) =
        (js_lt (divide_op ar (loadavg inp) (of_nat (cpus inp))) SYSTEM_HEALTH_THRESHOLD \<and>
         js_lt (divide_op ar (minus_op ar (totalmem inp) (freemem inp)) (totalmem inp))
           SYSTEM_HEALTH_THRESHOLD)) \<and>
   (validateResources ar inp url = Inr True \<longrightarrow>
      js_lt (divide_op ar (totalSize inp) (totalQuota inp)) STORAGE_CLEANUP_THRESHOLD \<and>
      processingItemsCount inp < queueMaxConcurrent inp \<and>
      (\<forall>l \<in> set (limits inp).
         \<lceil>times_op ar (of_int (limit l)) RATE_LIMIT_BUFFER\<rceil> < remaining l) \<and>
      js_lt (divide_op ar (loadavg inp) (of_nat (cpus inp))) SYSTEM_HEALTH_THRESHOLD \<and>
      js_lt (divide_op ar (minus_op ar (totalmem inp) (freemem inp)) (totalmem inp))
        SYSTEM_HEALTH_THRESHOLD) \<and>
   (\<forall>m. checkResources ar inp = Inr m \<longrightarrow>
      available m =
        (isStorageAvailable m \<and> isQueueAvailable m \<and> areRateLimitsAvailable ar m \<and>
         isSystemHealthy m))"
proof -
  have never_false: "validateResources ar inp url \<noteq> Inr False"
    by (simp add: validateResources_def split: sum.splits)
  have healthy: "isHealthy (gatherMetrics ar inp) =
        (js_lt (divide_op ar (loadavg inp) (of_nat (cpus inp))) SYSTEM_HEALTH_THRESHOLD \<and>
         js_lt (divide_op ar (minus_op ar (totalmem inp) (freemem inp)) (totalmem inp))
           SYSTEM_HEALTH_THRESHOLD)"
    by (simp add: gatherMetrics_def Let_def)
  have only_when:
      "js_lt (divide_op ar (totalSize inp) (totalQuota inp)) STORAGE_CLEANUP_THRESHOLD \<and>
      processingItemsCount inp < queueMaxConcurrent inp \<and>
      (\<forall>l \<in> set (limits inp).
         \<lceil>times_op ar (of_int (limit l)) RATE_LIMIT_BUFFER\<rceil> < remaining l) \<and>
      js_lt (divide_op ar (loadavg inp) (of_nat (cpus inp))) SYSTEM_HEALTH_THRESHOLD \<and>
      js_lt (divide_op ar (minus_op ar (totalmem inp) (freemem inp)) (totalmem inp))
        SYSTEM_HEALTH_THRESHOLD"
    if ok: "validateResources ar inp url = Inr True"
  proof -
    from ok obtain m where m: "checkResources ar inp = Inr m" and av: "available m"
      by (auto simp: validateResources_def split: sum.splits if_splits)
    from checkResources_available [OF m] av show ?thesis
      by (auto simp: isStorageAvailable_def isQueueAvailable_def areRateLimitsAvailable_def
          isSystemHealthy_def isRateLimitCritical_def Let_def list_all_iff)
  qed
  have avail: "available m =
        (isStorageAvailable m \<and> isQueueAvailable m \<and> areRateLimitsAvailable ar m \<and>
         isSystemHealthy m)" if "checkResources ar inp = Inr m" for m
    using that by (rule checkResources_available)
  from never_false validateResources_full [of ar inp url] healthy only_when avail
  show ?thesis by blast
qed

theorem validateResources_gate_witness:
  "js_ge (divide_op exactArithmetic (totalSize fullStorage) (totalQuota fullStorage))
     STORAGE_CLEANUP_THRESHOLD \<and>
   validateResources exactArithmetic fullStorage ''repo'' =
     Inl (ResourceError ''Resources not available'' RESOURCE_INVALID [''Storage quota exceeded'']) \<and>
   validateResources exactArithmetic failingCleanup ''repo'' =
     Inl (ResourceError ''Failed to check resources'' SYSTEM_ERROR []) \<and>
   validateResources exactArithmetic healthyInputs ''repo'' = Inr True \<and>
   js_lt (divide_op exactArithmetic (totalSize healthyInputs) (totalQuota healthyInputs))
     STORAGE_CLEANUP_THRESHOLD \<and>
   processingItemsCount healthyInputs < queueMaxConcurrent healthyInputs \<and>
   limits healthyInputs \<noteq> [] \<and>
   list_all (\<lambda>l. \<lceil>times_op exactArithmetic (of_int (limit l)) RATE_LIMIT_BUFFER\<rceil> < remaining l)
     (limits healthyInputs) \<and>
   checkResources exactArithmetic healthyInputs =
     Inr ((gatherMetrics exactArithmetic healthyInputs)\<lparr>available := True\<rparr>) \<and>
   isStorageAvailable ((gatherMetrics exactArithmetic healthyInputs)\<lparr>available := True\<rparr>)"
proof -
  let ?ar = exactArithmetic
  have h1: "js_ge (divide_op ?ar (totalSize fullStorage) (totalQuota fullStorage))
      STORAGE_CLEANUP_THRESHOLD"
    and h1': "js_ge (divide_op ?ar (totalSize failingCleanup) (totalQuota failingCleanup))
      STORAGE_CLEANUP_THRESHOLD"
    by (simp_all add: resource_eval)
  have e1: "\<not> metricsThrow fullStorage" "\<not> storageCleanupThrows fullStorage"
    "\<not> queueCleanupThrows fullStorage"
    "\<not> queueMaxConcurrent fullStorage \<le> processingItemsCount fullStorage"
    "isHealthy (gatherMetrics ?ar fullStorage)"
    "storageCleanupThrows failingCleanup"
    by (simp_all add: resource_eval)
  have h2: "validateResources ?ar healthyInputs ''repo'' = Inr True"
    by (simp add: resource_eval)
  have h3: "checkResources ?ar healthyInputs =
      Inr ((gatherMetrics ?ar healthyInputs)\<lparr>available := True\<rparr>)"
    by (simp add: resource_eval)
  have h4: "limits healthyInputs \<noteq> []"
    by (simp add: resource_eval)
  from validateResources_gate [of ?ar fullStorage "''repo''"] h1 e1
  have c1: "validateResources ?ar fullStorage ''repo'' =
      Inl (ResourceError ''Resources not available'' RESOURCE_INVALID [''Storage quota exceeded''])"
    by simp
  from validateResources_gate [of ?ar failingCleanup "''repo''"] h1' e1
  have c1': "validateResources ?ar failingCleanup ''repo'' =
      Inl (ResourceError ''Failed to check resources'' SYSTEM_ERROR [])"
    by simp
  from validateResources_gate [of ?ar healthyInputs "''repo''"] h2
  have c2: "js_lt (divide_op ?ar (totalSize healthyInputs) (totalQuota healthyInputs))
        STORAGE_CLEANUP_THRESHOLD \<and>
      processingItemsCount healthyInputs < queueMaxConcurrent healthyInputs \<and>
      (\<forall>l \<in> set (limits healthyInputs).
         \<lceil>times_op ?ar (of_int (limit l)) RATE_LIMIT_BUFFER\<rceil> < remaining l)"
    by blast
  from validateResources_gate [of ?ar healthyInputs "''repo''"] h3
  have "available ((gatherMetrics ?ar healthyInputs)\<lparr>available := True\<rparr>) =
      (isStorageAvailable ((gatherMetrics ?ar healthyInputs)\<lparr>available := True\<rparr>) \<and>
       isQueueAvailable ((gatherMetrics ?ar healthyInputs)\<lparr>available := True\<rparr>) \<and>
       areRateLimitsAvailable ?ar ((gatherMetrics ?ar healthyInputs)\<lparr>available := True\<rparr>) \<and>
       isSystemHealthy ((gatherMetrics ?ar healthyInputs)\<lparr>available := True\<rparr>))"
    by blast
  then have c3: "isStorageAvailable ((gatherMetrics ?ar healthyInputs)\<lparr>available := True\<rparr>)"
    by simp
  from h1 h2 h3 h4 c1 c1' c2 c3 show ?thesis by (simp add: list_all_iff)
qed
section \<open>Properties of the cache\<close>

text \<open>
  C6 as stated fails at the boundary: \<open>isExpired\<close> tests \<open>now > timestamp + ttl\<close>, so
  exactly \<open>ttl\<close> milliseconds after \<open>set\<close> the value is still returned.
\<close>

theorem get_at_ttl_returns_value:
  "fst (get_cache ''k'' (5000 + 1000) (set_cache ''k'' ''v'' 1000 5000 Map.empty)) = Some ''v''"
  by (simp add: get_cache_def set_cache_def isExpired_def)

text \<open>
  C6, amended. For every key and every time \<open>t\<close> measured from \<open>set(key, value, ttl)\<close>:
  get returns the stored value whenever \<open>0 \<le> t \<le> ttl\<close> and returns absent for all
  \<open>t > ttl\<close>. An expired entry is indistinguishable from one that was never set: the
  read removes it, and if the key was absent before the \<open>set\<close>, the answer and the
  cache left behind are those of the same read without the \<open>set\<close>.
\<close>

theorem get_within_ttl:
  "(0 \<le> t \<and> t \<le> life \<longrightarrow>
      get_cache key (t0 + t) (set_cache key v life t0 c) = (Some v, set_cache key v life t0 c)) \<and>
   (life < t \<longrightarrow>
      get_cache key (t0 + t) (set_cache key v life t0 c) = (None, c(key := None))) \<and>
   (life < t \<and> c key = None \<longrightarrow>
      get_cache key (t0 + t) (set_cache key v life t0 c) = get_cache key (t0 + t) c)"
proof -
  have absent: "c(key := None) = c" if "c key = None"
    using that by (rule fun_upd_idem)
  show ?thesis
    by (auto simp: get_cache_def set_cache_def isExpired_def absent)
qed

theorem get_within_ttl_witness:
  "(0::int) \<le> 999 \<and> (999::int) \<le> 1000 \<and>
   get_cache ''k'' (5000 + 999) (set_cache ''k'' ''v'' 1000 5000 Map.empty) =
     (Some ''v'', set_cache ''k'' ''v'' 1000 5000 Map.empty) \<and>
   (1000::int) < 1001 \<and> (Map.empty :: string cache) ''k'' = None \<and>
   get_cache ''k'' (5000 + 1001) (set_cache ''k'' ''v'' 1000 5000 Map.empty) =
     (None, Map.empty) \<and>
   get_cache ''k'' (5000 + 1001) (set_cache ''k'' ''v'' 1000 5000 Map.empty) =
     get_cache ''k'' (5000 + 1001) (Map.empty :: string cache)"
proof -
  have h1: "(0::int) \<le> 999 \<and> (999::int) \<le> 1000" by simp
  have h2: "(1000::int) < 1001" by simp
  have h3: "(Map.empty :: string cache) ''k'' = None" by simp
  from get_within_ttl [of 999 1000 "''k''" 5000 "''v''" Map.empty] h1
  have a: "get_cache ''k'' (5000 + 999) (set_cache ''k'' ''v'' 1000 5000 Map.empty) =
     (Some ''v'', set_cache ''k'' ''v'' 1000 5000 Map.empty)"
    by blast
  from get_within_ttl [of 1001 1000 "''k''" 5000 "''v''" Map.empty] h2
  have "get_cache ''k'' (5000 + 1001) (set_cache ''k'' ''v'' 1000 5000 Map.empty) =
     (None, Map.empty(''k'' := None))"
    by blast
  then have b: "get_cache ''k'' (5000 + 1001) (set_cache ''k'' ''v'' 1000 5000 Map.empty) =
     (None, Map.empty)"
    by simp
  from get_within_ttl [of 1001 1000 "''k''" 5000 "''v''" Map.empty] h2 h3
  have c: "get_cache ''k'' (5000 + 1001) (set_cache ''k'' ''v'' 1000 5000 Map.empty) =
     get_cache ''k'' (5000 + 1001) (Map.empty :: string cache)"
    by blast
  from h1 h2 h3 a b c show ?thesis by blast
qed

section \<open>Properties of the status manager\<close>

subsection \<open>Retry decisions\<close>

lemma rate_limit_first:
  "message_includes err ''rate limit'' \<Longrightarrow> findRetryStrategy err = Some RATE_LIMIT"
  by (simp add: findRetryStrategy_def retryStrategies_def RATE_LIMIT_def)

lemma handleError_rate_limit:
  assumes "progressMap st url = Some p" and "message_includes err ''rate limit''"
  shows "handleError url err rnd now st =
    (if 3 \<le> attemptsOf st url then (False, markAsFailed url err now st)
     else (True, st\<lparr>retryAttempts := (retryAttempts st)(url \<mapsto> attemptsOf st url + 1),
                    timers := timers st @ [calculateBackoff (attemptsOf st url + 1) rnd]\<rparr>))"
  using assms
  by (simp add: handleError_def rate_limit_first attemptsOf_def RATE_LIMIT_def Let_def)

lemma markAsFailed_record:
  "progressMap st url = Some p \<Longrightarrow>
   progressMap (markAsFailed url err now st) url = Some (p\<lparr>status := A_FAILED, error := Some err\<rparr>) \<and>
   retryAttempts (markAsFailed url err now st) = retryAttempts st"
  by (simp add: markAsFailed_def)

lemma handleErrors_rate_limit:
  assumes "progressMap st url \<noteq> None"
    and "\<forall>e \<in> set es. message_includes (fst e) ''rate limit''"
  shows "fst (handleErrors url es st) =
           replicate (min (3 - attemptsOf st url) (length es)) True @
           replicate (length es - (3 - attemptsOf st url)) False \<and>
         progressMap (snd (handleErrors url es st)) url \<noteq> None \<and>
         (3 - attemptsOf st url < length es \<longrightarrow>
            (\<exists>p. progressMap (snd (handleErrors url es st)) url = Some p \<and> status p = A_FAILED)) \<and>
         (3 - attemptsOf st url \<le> length es \<longrightarrow> 3 \<le> attemptsOf (snd (handleErrors url es st)) url)"
  using assms
proof (induction es arbitrary: st)
  case Nil
  then show ?case by auto
next
  case (Cons e es)
  obtain err rnd now where e: "e = (err, rnd, now)" by (cases e) auto
  from Cons.prems obtain p where p: "progressMap st url = Some p" by auto
  from Cons.prems e have rl: "message_includes err ''rate limit''" by simp
  show ?case
  proof (cases "3 \<le> attemptsOf st url")
    case True
    let ?st1 = "markAsFailed url err now st"
    have step: "handleError url err rnd now st = (False, ?st1)"
      using handleError_rate_limit [OF p rl] True by simp
    have rec1: "progressMap ?st1 url = Some (p\<lparr>status := A_FAILED, error := Some err\<rparr>)"
      and att1: "attemptsOf ?st1 url = attemptsOf st url"
      using markAsFailed_record [OF p] by (simp_all add: attemptsOf_def)
    have ih: "fst (handleErrors url es ?st1) =
           replicate (min (3 - attemptsOf ?st1 url) (length es)) True @
           replicate (length es - (3 - attemptsOf ?st1 url)) False \<and>
         progressMap (snd (handleErrors url es ?st1)) url \<noteq> None \<and>
         (3 - attemptsOf ?st1 url < length es \<longrightarrow>
            (\<exists>p. progressMap (snd (handleErrors url es ?st1)) url = Some p \<and> status p = A_FAILED)) \<and>
         (3 - attemptsOf ?st1 url \<le> length es \<longrightarrow> 3 \<le> attemptsOf (snd (handleErrors url es ?st1)) url)"
      using Cons.IH [of ?st1] rec1 Cons.prems(2) by simp
    have failed: "\<exists>q. progressMap (snd (handleErrors url es ?st1)) url = Some q \<and> status q = A_FAILED"
    proof (cases es)
      case Nil
      then show ?thesis using rec1 by simp
    next
      case (Cons e' es')
      then have "3 - attemptsOf ?st1 url < length es" using True att1 by simp
      with ih show ?thesis by blast
    qed
    show ?thesis
      using step ih failed True att1 e
      by (simp add: split_beta)
  next
    case False
    let ?st1 = "st\<lparr>retryAttempts := (retryAttempts st)(url \<mapsto> attemptsOf st url + 1),
                    timers := timers st @ [calculateBackoff (attemptsOf st url + 1) rnd]\<rparr>"
    have step: "handleError url err rnd now st = (True, ?st1)"
      using handleError_rate_limit [OF p rl] False by simp
    have rec1: "progressMap ?st1 url = Some p"
      and att1: "attemptsOf ?st1 url = attemptsOf st url + 1"
      using p by (simp_all add: attemptsOf_def)
    have ih: "fst (handleErrors url es ?st1) =
           replicate (min (3 - attemptsOf ?st1 url) (length es)) True @
           replicate (length es - (3 - attemptsOf ?st1 url)) False \<and>
         progressMap (snd (handleErrors url es ?st1)) url \<noteq> None \<and>
         (3 - attemptsOf ?st1 url < length es \<longrightarrow>
            (\<exists>p. progressMap (snd (handleErrors url es ?st1)) url = Some p \<and> status p = A_FAILED)) \<and>
         (3 - attemptsOf ?st1 url \<le> length es \<longrightarrow> 3 \<le> attemptsOf (snd (handleErrors url es ?st1)) url)"
      using Cons.IH [of ?st1] rec1 Cons.prems(2) by simp
    have a: "3 - attemptsOf st url = Suc (3 - (attemptsOf st url + 1))"
      using False by simp
    show ?thesis
      using step ih e False
      unfolding att1
      by (simp add: split_beta a del: replicate_Suc)
         (auto simp: replicate_Suc [symmetric] min_def simp del: replicate_Suc)
  qed
qed


lemma markAsFailed_attempts: "attemptsOf (markAsFailed u err now st) url = attemptsOf st url"
  by (simp add: markAsFailed_def attemptsOf_def split: option.splits)

lemma handleError_attempts_mono:
  "attemptsOf st url \<le> attemptsOf (snd (handleError u err rnd now st)) url"
  by (auto simp: handleError_def Let_def markAsFailed_attempts attemptsOf_def [of "_\<lparr>retryAttempts := _\<rparr>"]
      attemptsOf_def [of "_\<lparr>retryAttempts := _, timers := _\<rparr>"]
      split: option.splits sum.splits)
     (auto simp: attemptsOf_def)

lemma applySm_attempts_mono:
  assumes "op \<noteq> Cleanup url"
  shows "attemptsOf st url \<le> attemptsOf (applySm op st) url"
proof (cases op)
  case (Initialize u now)
  then show ?thesis by (simp add: initializeProgress_def attemptsOf_def)
next
  case (UpdateProgress u p s pos now)
  then show ?thesis
    by (auto simp: updateProgress_def attemptsOf_def Let_def split: option.splits sum.splits)
next
  case (CompleteAnalysis u res now)
  then show ?thesis by (auto simp: completeAnalysis_def attemptsOf_def split: option.splits)
next
  case (HandleError u err rnd now)
  then show ?thesis using handleError_attempts_mono by simp
next
  case (Cleanup u)
  with assms have "u \<noteq> url" by simp
  with Cleanup show ?thesis by (simp add: cleanup_def attemptsOf_def)
qed

lemma runSm_attempts_mono:
  "Cleanup url \<notin> set ops \<Longrightarrow> attemptsOf st url \<le> attemptsOf (runSm ops st) url"
proof (induction ops arbitrary: st)
  case Nil
  then show ?case by simp
next
  case (Cons op ops)
  then have "attemptsOf st url \<le> attemptsOf (applySm op st) url"
    by (intro applySm_attempts_mono) auto
  also have "\<dots> \<le> attemptsOf (runSm ops (applySm op st)) url"
    using Cons by simp
  finally show ?case by simp
qed

lemma handleError_exhausted:
  assumes "3 \<le> attemptsOf st url" and "message_includes err ''rate limit''"
  shows "fst (handleError url err rnd now st) = False"
  using assms
  by (simp add: handleError_def rate_limit_first attemptsOf_def RATE_LIMIT_def Let_def
      split: option.splits)

lemma handleError_after_cleanup:
  assumes "message_includes err ''rate limit''"
  shows "fst (handleError url err rnd now (initializeProgress url t (cleanup url st))) = True"
  using assms
  by (simp add: handleError_def rate_limit_first RATE_LIMIT_def Let_def initializeProgress_def
      cleanup_def)

lemmas status_eval =
  freshRepo_def rateLimitError_def fiveErrors_def laterCalls_def newManager_def
  initializeProgress_def cleanup_def message_includes_def sublist_code prefix_code

lemmas retry_eval =
  networkError_def twoNetworkErrors_def threeErrors_def handleError_def markAsFailed_def
  findRetryStrategy_def retryStrategies_def RATE_LIMIT_def NETWORK_def STORAGE_def
  calculateBackoff_def cacheProgress_def set_cache_def invalidateProgress_def
  delete_cache_def Let_def

lemma afterNetwork_eval:
  "fst (handleErrors ''repo'' twoNetworkErrors freshRepo) = [True, True] \<and>
   retryAttempts afterNetwork ''repo'' = Some 2 \<and>
   map_option status (progressMap afterNetwork ''repo'') = Some A_PENDING"
  unfolding afterNetwork_def
  by (simp add: status_eval retry_eval)

lemma exhausted_eval:
  "fst (handleErrors ''repo'' fiveErrors freshRepo) = [True, True, True, False, False] \<and>
   retryAttempts exhausted ''repo'' = Some 3 \<and>
   map_option status (progressMap exhausted ''repo'') = Some A_FAILED"
  unfolding exhausted_def
  by (simp add: status_eval retry_eval)

text \<open>
  C4 as stated fails. The retry counter of a subject is one for all retry classes: after
  two retried network errors, three rate-limit errors are answered true, false, false.
  And FAILED is not terminal: after the rate-limit retries are used up and the subject is
  marked FAILED, a network error is still retried, and \<open>updateProgress\<close> sets the status
  it is given.
\<close>

theorem retry_counter_shared:
  "fst (handleErrors ''repo'' twoNetworkErrors freshRepo) = [True, True] \<and>
   fst (handleErrors ''repo'' threeErrors afterNetwork) = [True, False, False] \<and>
   fst (handleErrors ''repo'' fiveErrors freshRepo) = [True, True, True, False, False] \<and>
   map_option status (progressMap exhausted ''repo'') = Some A_FAILED \<and>
   fst (handleError ''repo'' networkError 0 6 exhausted) = True \<and>
   map_option status
     (progressMap (snd (updateProgress ''repo'' 40 (Some A_IN_PROGRESS) (Inr 1) 7 exhausted))
        ''repo'') = Some A_IN_PROGRESS"
proof -
  obtain p where p: "progressMap afterNetwork ''repo'' = Some p"
    using afterNetwork_eval by auto
  obtain q where q: "progressMap exhausted ''repo'' = Some q"
    using exhausted_eval by auto
  have c2: "fst (handleErrors ''repo'' threeErrors afterNetwork) = [True, False, False]"
    using p afterNetwork_eval
    by (simp add: threeErrors_def rateLimitError_def handleError_def markAsFailed_def
        findRetryStrategy_def retryStrategies_def RATE_LIMIT_def message_includes_def
        sublist_code prefix_code Let_def)
  have c5: "fst (handleError ''repo'' networkError 0 6 exhausted) = True"
    using q exhausted_eval
    by (simp add: networkError_def handleError_def findRetryStrategy_def retryStrategies_def
        RATE_LIMIT_def NETWORK_def message_includes_def sublist_code prefix_code Let_def)
  have c6: "map_option status
     (progressMap (snd (updateProgress ''repo'' 40 (Some A_IN_PROGRESS) (Inr 1) 7 exhausted))
        ''repo'') = Some A_IN_PROGRESS"
    using q by (simp add: updateProgress_def Let_def)
  from afterNetwork_eval exhausted_eval c2 c5 c6 show ?thesis by simp
qed

text \<open>
  C4, amended. The retry counter of a subject is shared by all retry classes. For a
  subject that has a progress record and whose counter stands at \<open>a\<close> (the retries of
  any class it has used since its record was last cleaned up), successive errors that
  match the rate-limit class (\<open>maxRetries = 3\<close>) make handleError return true for the
  first \<open>3 - a\<close> of them (for none if \<open>a\<close> is 3 or more) and false for every later one:
  exactly 3 times when the counter is fresh. After a sequence of such errors of which
  one was refused, the subject is marked FAILED. Once the counter has reached 3, every
  further error matching the class yields no retry, whatever other calls of the status
  manager are made in between, until the subject is cleaned up; after a cleanup and a
  new initialization such an error is retried again.
\<close>

theorem retry_budget:
  assumes "progressMap st url \<noteq> None"
    and "\<forall>e \<in> set es. message_includes (fst e) ''rate limit''"
    and "message_includes err ''rate limit''"
  shows "fst (handleErrors url es st) =
           replicate (min (3 - attemptsOf st url) (length es)) True @
           replicate (length es - (3 - attemptsOf st url)) False \<and>
         (3 - attemptsOf st url < length es \<longrightarrow>
            (\<exists>p. progressMap (snd (handleErrors url es st)) url = Some p \<and> status p = A_FAILED)) \<and>
         (3 - attemptsOf st url \<le> length es \<and> Cleanup url \<notin> set ops \<longrightarrow>
            fst (handleError url err rnd now (runSm ops (snd (handleErrors url es st)))) = False) \<and>
         fst (handleError url err rnd now
               (initializeProgress url t (cleanup url (runSm ops (snd (handleErrors url es st)))))) = True"
proof -
  note run = handleErrors_rate_limit [OF assms(1) assms(2)]
  have used: "fst (handleError url err rnd now (runSm ops (snd (handleErrors url es st)))) = False"
    if "3 - attemptsOf st url \<le> length es" and "Cleanup url \<notin> set ops"
  proof -
    from run that(1) have "3 \<le> attemptsOf (snd (handleErrors url es st)) url" by simp
    also have "\<dots> \<le> attemptsOf (runSm ops (snd (handleErrors url es st))) url"
      using that(2) by (rule runSm_attempts_mono)
    finally show ?thesis using assms(3) by (rule handleError_exhausted)
  qed
  from run used handleError_after_cleanup [OF assms(3)] show ?thesis by simp
qed

theorem retry_budget_witness:
  "progressMap freshRepo ''repo'' \<noteq> None \<and> attemptsOf freshRepo ''repo'' = 0 \<and>
   list_all (\<lambda>e. message_includes (fst e) ''rate limit'') fiveErrors \<and>
   message_includes rateLimitError ''rate limit'' \<and>
   fst (handleErrors ''repo'' fiveErrors freshRepo) = [True, True, True, False, False] \<and>
   (\<exists>p. progressMap (snd (handleErrors ''repo'' fiveErrors freshRepo)) ''repo'' = Some p \<and>
        status p = A_FAILED) \<and>
   Cleanup ''repo'' \<notin> set laterCalls \<and>
   fst (handleError ''repo'' rateLimitError 0 9
         (runSm laterCalls (snd (handleErrors ''repo'' fiveErrors freshRepo)))) = False \<and>
   fst (handleError ''repo'' rateLimitError 0 9
         (initializeProgress ''repo'' 8
           (cleanup ''repo'' (runSm laterCalls (snd (handleErrors ''repo'' fiveErrors freshRepo)))))) = True \<and>
   progressMap afterNetwork ''repo'' \<noteq> None \<and> attemptsOf afterNetwork ''repo'' = 2 \<and>
   list_all (\<lambda>e. message_includes (fst e) ''rate limit'') threeErrors \<and>
   fst (handleErrors ''repo'' threeErrors afterNetwork) = [True, False, False] \<and>
   (\<exists>p. progressMap (snd (handleErrors ''repo'' threeErrors afterNetwork)) ''repo'' = Some p \<and>
        status p = A_FAILED)"
proof -
  have h1: "progressMap freshRepo ''repo'' \<noteq> None"
    and h2: "attemptsOf freshRepo ''repo'' = 0"
    and h3: "\<forall>e \<in> set fiveErrors. message_includes (fst e) ''rate limit''"
    and h4: "message_includes rateLimitError ''rate limit''"
    and h5: "Cleanup ''repo'' \<notin> set laterCalls"
    and len: "length fiveErrors = 5"
    by (simp_all add: status_eval attemptsOf_def)
  have g1: "progressMap afterNetwork ''repo'' \<noteq> None"
    and g2: "attemptsOf afterNetwork ''repo'' = 2"
    using afterNetwork_eval by (auto simp: attemptsOf_def)
  have g3: "\<forall>e \<in> set threeErrors. message_includes (fst e) ''rate limit''"
    and len3: "length threeErrors = 3"
    by (simp_all add: threeErrors_def status_eval)
  have rep: "replicate (min (3 - 0) (length fiveErrors)) True @
      replicate (length fiveErrors - (3 - 0)) False = [True, True, True, False, False]"
    by (simp add: len numeral_eq_Suc)
  have rep3: "replicate (min (3 - 2) (length threeErrors)) True @
      replicate (length threeErrors - (3 - 2)) False = [True, False, False]"
    by (simp add: len3 numeral_eq_Suc)
  from retry_budget [OF h1 h3 h4, of laterCalls 0 9 8] h5 len rep
  have c1: "fst (handleErrors ''repo'' fiveErrors freshRepo) = [True, True, True, False, False] \<and>
   (\<exists>p. progressMap (snd (handleErrors ''repo'' fiveErrors freshRepo)) ''repo'' = Some p \<and>
        status p = A_FAILED) \<and>
   fst (handleError ''repo'' rateLimitError 0 9
         (runSm laterCalls (snd (handleErrors ''repo'' fiveErrors freshRepo)))) = False \<and>
   fst (handleError ''repo'' rateLimitError 0 9
         (initializeProgress ''repo'' 8
           (cleanup ''repo'' (runSm laterCalls (snd (handleErrors ''repo'' fiveErrors freshRepo)))))) = True"
    unfolding h2 by simp
  from retry_budget [OF g1 g3 h4, of "[]" 0 9 8] len3 rep3
  have c2: "fst (handleErrors ''repo'' threeErrors afterNetwork) = [True, False, False] \<and>
   (\<exists>p. progressMap (snd (handleErrors ''repo'' threeErrors afterNetwork)) ''repo'' = Some p \<and>
        status p = A_FAILED)"
    unfolding g2 by simp
  from h1 h2 h3 h4 h5 g1 g2 g3 c1 c2 show ?thesis by (simp add: list_all_iff)
qed

subsection \<open>Backoff\<close>



subsection \<open>Subjects without a progress record\<close>

text \<open>
  C10. For a subject that has no progress record, updateProgress and completeAnalysis
  return with the whole state of the status manager unchanged (records, retry counters,
  notifications sent, cache, timers), and handleError answers false with the state
  unchanged: nothing is marked FAILED, no notification is sent, no counter is
  incremented.
\<close>

theorem no_record_no_effect:
  assumes "progressMap st url = None"
  shows "updateProgress url p s pos now st = (Inr (), st) \<and>
         completeAnalysis url res now st = st \<and>
         handleError url err rnd now st = (False, st)"
  using assms by (simp add: updateProgress_def completeAnalysis_def handleError_def)

theorem no_record_no_effect_witness:
  "progressMap newManager ''repo'' = None \<and>
   progressMap (cleanup ''repo'' freshRepo) ''repo'' = None \<and>
   updateProgress ''repo'' 50 (Some A_IN_PROGRESS) (Inr 1) 5 newManager = (Inr (), newManager) \<and>
   completeAnalysis ''repo'' ''result'' 5 (cleanup ''repo'' freshRepo) = cleanup ''repo'' freshRepo \<and>
   handleError ''repo'' rateLimitError 0 5 (cleanup ''repo'' freshRepo) =
     (False, cleanup ''repo'' freshRepo)"
proof -
  have h1: "progressMap newManager ''repo'' = None"
    by (simp add: newManager_def)
  have h2: "progressMap (cleanup ''repo'' freshRepo) ''repo'' = None"
    by (simp add: cleanup_def)
  from no_record_no_effect [OF h1, of 50 "Some A_IN_PROGRESS" "Inr 1" 5]
    no_record_no_effect [OF h2, of _ _ _ 5 "''result''" rateLimitError 0] h1 h2
  show ?thesis by blast
qed

section \<open>The priority of a new queue item\<close>

text \<open>
  C8 as stated fails: \<open>enqueue\<close> has no priority parameter. Called with the priority 5
  under the default configuration, it stores the new row with the default priority 2.
\<close>

theorem enqueue_stores_default:
  "defaultPriority DEFAULT_CONFIG = 2 \<and>
   map priority
     (rows (snd (enqueueCall DEFAULT_CONFIG noFaults ''1'' 10 ''repo'' ''alice'' (Some 5)
                   emptyQueue))) = [2]"
  by (simp add: enqueueCall_def enqueue_def DEFAULT_CONFIG_def noFaults_def emptyQueue_def)

lemma findFirstPending_new_row:
  assumes "\<forall>r \<in> set rs. item_status r = Q_PENDING \<longrightarrow> priority r < priority x"
    and "item_status x = Q_PENDING"
  shows "findFirstPending (rs @ [x]) = Some x"
proof -
  have "pendingRows (rs @ [x]) \<noteq> []"
    using assms(2) by (simp add: pendingRows_def)
  then obtain q where q: "findFirstPending (rs @ [x]) = Some q"
    using findFirstPending_None [of "rs @ [x]"] by (cases "findFirstPending (rs @ [x])") auto
  from findFirstPending_Some [OF q]
  have qin: "q \<in> set (rs @ [x])" and qpend: "item_status q = Q_PENDING"
    and least: "\<forall>r \<in> set (rs @ [x]). item_status r = Q_PENDING \<longrightarrow> orderKey q \<le> orderKey r"
    by auto
  from least assms(2) have "orderKey q \<le> orderKey x" by simp
  then have "priority x \<le> priority q" by (auto simp: orderKey_le)
  with assms(1) qpend qin have "q = x" by auto
  with q show ?thesis by simp
qed

text \<open>
  C8, amended. \<open>enqueue\<close> takes the repository URL and the user id; a priority passed as
  a further argument is ignored. Unless the store fails, it creates the new Pending
  queue item with the configured default priority and changes nothing else. The stored
  priority is the one the dequeue ordering uses: after the enqueue, the item that the
  ordered query of dequeue selects has a priority not below the default, and when every
  other Pending item has a priority below the default, the query selects the new item
  and a dequeue below the concurrency cap on a working store returns its URL.
\<close>

theorem enqueue_default_priority:
  assumes "\<not> fails Create" and "newId \<notin> item_id ` set (rows st)"
  shows "enqueueCall cfg fails newId now url uid priorityArg st =
           (Inr (), st\<lparr>rows := rows st @ [pendingRow cfg newId now url uid]\<rparr>) \<and>
         priority (pendingRow cfg newId now url uid) = defaultPriority cfg \<and>
         item_status (pendingRow cfg newId now url uid) = Q_PENDING \<and>
         repositoryUrl (pendingRow cfg newId now url uid) = url \<and>
         (\<forall>q. findFirstPending
                 (rows (snd (enqueueCall cfg fails newId now url uid priorityArg st))) = Some q \<longrightarrow>
              defaultPriority cfg \<le> priority q) \<and>
         ((\<forall>r \<in> set (rows st). item_status r = Q_PENDING \<longrightarrow> priority r < defaultPriority cfg) \<longrightarrow>
            findFirstPending
              (rows (snd (enqueueCall cfg fails newId now url uid priorityArg st))) =
              Some (pendingRow cfg newId now url uid) \<and>
            (int (fcard (processingItems st)) < maxConcurrent cfg \<and>
             \<not> fails' FindFirst \<and> \<not> fails' Update \<longrightarrow>
               fst (dequeue cfg fails' later
                      (snd (enqueueCall cfg fails newId now url uid priorityArg st))) =
                 Inr (Some url)))"
proof -
  let ?x = "pendingRow cfg newId now url uid"
  let ?st = "st\<lparr>rows := rows st @ [?x]\<rparr>"
  have res: "enqueueCall cfg fails newId now url uid priorityArg st = (Inr (), ?st)"
    using assms by (simp add: enqueueCall_def enqueue_def pendingRow_def)
  have fields: "priority ?x = defaultPriority cfg" "item_status ?x = Q_PENDING"
    "repositoryUrl ?x = url"
    by (simp_all add: pendingRow_def)
  have least: "defaultPriority cfg \<le> priority q" if "findFirstPending (rows ?st) = Some q" for q
  proof -
    from findFirstPending_Some [OF that]
    have "\<forall>r \<in> set (rows ?st). item_status r = Q_PENDING \<longrightarrow> orderKey q \<le> orderKey r"
      by blast
    with fields have "orderKey q \<le> orderKey ?x" by simp
    then show ?thesis using fields by (auto simp: orderKey_le)
  qed
  have new: "findFirstPending (rows ?st) = Some ?x"
    if "\<forall>r \<in> set (rows st). item_status r = Q_PENDING \<longrightarrow> priority r < defaultPriority cfg"
    using findFirstPending_new_row [of "rows st" ?x] that fields by simp
  have deq: "fst (dequeue cfg fails' later ?st) = Inr (Some url)"
    if "\<forall>r \<in> set (rows st). item_status r = Q_PENDING \<longrightarrow> priority r < defaultPriority cfg"
      and "int (fcard (processingItems st)) < maxConcurrent cfg"
      and "\<not> fails' FindFirst" and "\<not> fails' Update"
    using new [OF that(1)] that(2,3,4) fields by (simp add: dequeue_def)
  show ?thesis
    unfolding res using fields least new deq by simp
qed

theorem enqueue_default_priority_witness:
  "\<not> noFaults Create \<and> ''4'' \<notin> item_id ` set (rows queue153) \<and>
   map priority (rows (snd (enqueueCall DEFAULT_CONFIG noFaults ''4'' 40 ''repo'' ''alice''
                              (Some 5) queue153))) = [1, 5, 3, 2] \<and>
   ''2'' \<notin> item_id ` set (rows lowQueue) \<and>
   list_all (\<lambda>r. item_status r = Q_PENDING \<and> priority r < defaultPriority DEFAULT_CONFIG)
     (rows lowQueue) \<and>
   int (fcard (processingItems lowQueue)) < maxConcurrent DEFAULT_CONFIG \<and>
   \<not> noFaults FindFirst \<and> \<not> noFaults Update \<and>
   fst (dequeue DEFAULT_CONFIG noFaults 50
          (snd (enqueueCall DEFAULT_CONFIG noFaults ''2'' 40 ''repo'' ''alice'' (Some 5)
                  lowQueue))) = Inr (Some ''repo'')"
proof -
  have h1: "\<not> noFaults Create" and h5: "\<not> noFaults FindFirst" and h6: "\<not> noFaults Update"
    by (simp_all add: noFaults_def)
  have h2: "''4'' \<notin> item_id ` set (rows queue153)"
    and h3: "''2'' \<notin> item_id ` set (rows lowQueue)"
    and h4: "\<forall>r \<in> set (rows lowQueue).
        item_status r = Q_PENDING \<longrightarrow> priority r < defaultPriority DEFAULT_CONFIG"
    and h4': "list_all (\<lambda>r. item_status r = Q_PENDING \<and> priority r < defaultPriority DEFAULT_CONFIG)
        (rows lowQueue)"
    and h7: "int (fcard (processingItems lowQueue)) < maxConcurrent DEFAULT_CONFIG"
    and h8: "map priority (rows queue153) = [1, 5, 3]"
    by (simp_all add: queue_eval lowQueue_def)
  from enqueue_default_priority [where fails = noFaults and newId = "''4''" and st = queue153
      and cfg = DEFAULT_CONFIG and now = 40 and url = "''repo''" and uid = "''alice''"
      and priorityArg = "Some 5"] h1 h2
  have "enqueueCall DEFAULT_CONFIG noFaults ''4'' 40 ''repo'' ''alice'' (Some 5) queue153 =
      (Inr (), queue153\<lparr>rows := rows queue153 @
         [pendingRow DEFAULT_CONFIG ''4'' 40 ''repo'' ''alice'']\<rparr>)"
    and "priority (pendingRow DEFAULT_CONFIG ''4'' 40 ''repo'' ''alice'') =
      defaultPriority DEFAULT_CONFIG"
    by blast+
  then have c1: "map priority (rows (snd (enqueueCall DEFAULT_CONFIG noFaults ''4'' 40 ''repo''
      ''alice'' (Some 5) queue153))) = [1, 5, 3, 2]"
    using h8 by (simp add: DEFAULT_CONFIG_def)
  from enqueue_default_priority [where fails = noFaults and newId = "''2''" and st = lowQueue
      and cfg = DEFAULT_CONFIG and now = 40 and url = "''repo''" and uid = "''alice''"
      and priorityArg = "Some 5" and fails' = noFaults and later = 50] h1 h3 h4 h5 h6 h7
  have c2: "fst (dequeue DEFAULT_CONFIG noFaults 50
          (snd (enqueueCall DEFAULT_CONFIG noFaults ''2'' 40 ''repo'' ''alice'' (Some 5)
                  lowQueue))) = Inr (Some ''repo'')"
    by blast
  from h1 h2 h3 h4' h5 h6 h7 c1 c2 show ?thesis by simp
qed

section \<open>Failure of the pipeline\<close>


section \<open>Progress values\<close>

lemma updateProgress_record:
  "progressMap st url = Some p \<Longrightarrow>
   progressMap (snd (updateProgress url v s pos now st)) url =
     Some (p\<lparr>progress := v, status := (case s of None \<Rightarrow> status p | Some t \<Rightarrow> t)\<rparr>)"
  by (simp add: updateProgress_def Let_def split: sum.splits)

lemma progressAfter_passed:
  "progressMap st url \<noteq> None \<Longrightarrow> progressAfter url calls st = map (\<lambda>c. Some (fst c)) calls"
proof (induction calls arbitrary: st)
  case Nil
  then show ?case by simp
next
  case (Cons c calls)
  obtain v s pos now where c: "c = (v, s, pos, now)" by (cases c) auto
  from Cons.prems obtain p where p: "progressMap st url = Some p" by auto
  let ?st1 = "snd (updateProgress url v s pos now st)"
  from updateProgress_record [OF p, of v s pos now]
  have rec: "progressMap ?st1 url \<noteq> None" and val: "map_option progress (progressMap ?st1 url) = Some v"
    by simp_all
  from Cons.IH [OF rec] val c show ?case by (simp add: Let_def)
qed

lemma markAsFailed_hundred:
  "hundredOnlyTerminal st url \<Longrightarrow> hundredOnlyTerminal (markAsFailed u err now st) url"
  by (auto simp: hundredOnlyTerminal_def markAsFailed_def terminalStatus_def split: option.splits)

lemma handleError_hundred:
  assumes "hundredOnlyTerminal st url"
  shows "hundredOnlyTerminal (snd (handleError u err rnd now st)) url"
proof -
  have keep: "hundredOnlyTerminal (st\<lparr>retryAttempts := r\<rparr>) url" for r
    using assms by (simp add: hundredOnlyTerminal_def)
  have keep2: "hundredOnlyTerminal (st\<lparr>retryAttempts := r, timers := t\<rparr>) url" for r t
    using assms by (simp add: hundredOnlyTerminal_def)
  show ?thesis
    using assms keep keep2
    by (auto simp: handleError_def Let_def markAsFailed_hundred split: option.splits sum.splits)
qed

lemma applySm_hundred:
  assumes "hundredOnlyTerminal st url" and "\<not> passes100 op"
  shows "hundredOnlyTerminal (applySm op st) url"
proof (cases op)
  case (Initialize u now)
  then show ?thesis using assms
    by (auto simp: initializeProgress_def hundredOnlyTerminal_def split: option.splits)
next
  case (UpdateProgress u v s pos now)
  then show ?thesis using assms
    by (auto simp: updateProgress_def hundredOnlyTerminal_def Let_def
        split: option.splits sum.splits)
next
  case (CompleteAnalysis u res now)
  then show ?thesis using assms
    by (auto simp: completeAnalysis_def hundredOnlyTerminal_def terminalStatus_def
        split: option.splits)
next
  case (HandleError u err rnd now)
  then show ?thesis using assms handleError_hundred by simp
next
  case (Cleanup u)
  then show ?thesis using assms
    by (auto simp: cleanup_def hundredOnlyTerminal_def split: option.splits)
qed

lemma runSm_hundred:
  "hundredOnlyTerminal st url \<Longrightarrow> list_all (\<lambda>op. \<not> passes100 op) ops \<Longrightarrow>
   hundredOnlyTerminal (runSm ops st) url"
  by (induction ops arbitrary: st) (simp_all add: applySm_hundred)

lemma completeAnalysis_observe:
  "observe (completeAnalysis url res now st) url =
     map_option (\<lambda>p. (100, A_COMPLETED)) (progressMap st url)"
  by (simp add: observe_def completeAnalysis_def split: option.splits)

text \<open>
  C7 as stated fails. \<open>updateProgress\<close> stores the value it is given without comparing
  it with the one before: 50 and then 20 are both seen with the status PENDING, and
  100 is seen with the status PENDING.
\<close>

theorem progress_not_monotone:
  "observe (runSm [UpdateProgress ''repo'' 50 None (Inr 1) 1] freshRepo) ''repo'' = Some (50, A_PENDING) \<and>
   observe (runSm [UpdateProgress ''repo'' 50 None (Inr 1) 1,
                   UpdateProgress ''repo'' 20 None (Inr 1) 2] freshRepo) ''repo'' = Some (20, A_PENDING) \<and>
   observe (runSm [UpdateProgress ''repo'' 100 None (Inr 1) 1] freshRepo) ''repo'' = Some (100, A_PENDING) \<and>
   \<not> terminalStatus A_PENDING"
  by (simp add: observe_def updateProgress_def status_eval cacheProgress_def set_cache_def Let_def
      terminalStatus_def)

text \<open>
  C7, amended. For any subject's progress record in the status manager, the progress
  seen after each call of \<open>updateProgress\<close> is the value that call was given, so
  successive values are non-decreasing whenever the values passed are; and unless some
  call passes 100 to \<open>updateProgress\<close> with no terminal status, progress is 100 only in
  a terminal state (\<open>completeAnalysis\<close> sets 100 together with COMPLETED).
\<close>

theorem progress_as_passed:
  "(progressMap st url \<noteq> None \<longrightarrow>
      progressAfter url calls st = map (\<lambda>c. Some (fst c)) calls) \<and>
   (progressMap st url \<noteq> None \<and> sorted (map fst calls) \<longrightarrow>
      sorted (map the (progressAfter url calls st))) \<and>
   (hundredOnlyTerminal st url \<and> list_all (\<lambda>op. \<not> passes100 op) ops \<longrightarrow>
      hundredOnlyTerminal (runSm ops st) url) \<and>
   observe (completeAnalysis url res now st) url =
     map_option (\<lambda>p. (100, A_COMPLETED)) (progressMap st url)"
proof -
  have passed: "progressAfter url calls st = map (\<lambda>c. Some (fst c)) calls"
    if "progressMap st url \<noteq> None"
    using that by (rule progressAfter_passed)
  have mono: "sorted (map the (progressAfter url calls st))"
    if "progressMap st url \<noteq> None" and "sorted (map fst calls)"
    using that by (simp add: progressAfter_passed comp_def)
  have hundred: "hundredOnlyTerminal (runSm ops st) url"
    if "hundredOnlyTerminal st url" and "list_all (\<lambda>op. \<not> passes100 op) ops"
    using that by (rule runSm_hundred)
  from passed mono hundred completeAnalysis_observe [of url res now st]
  show ?thesis by blast
qed

theorem progress_as_passed_witness:
  "progressMap freshRepo ''repo'' \<noteq> None \<and> sorted (map fst threeUpdates) \<and>
   progressAfter ''repo'' threeUpdates freshRepo = [Some 10, Some 20, Some 80] \<and>
   sorted (map the (progressAfter ''repo'' threeUpdates freshRepo)) \<and>
   hundredOnlyTerminal freshRepo ''repo'' \<and> list_all (\<lambda>op. \<not> passes100 op) usualCalls \<and>
   hundredOnlyTerminal (runSm usualCalls freshRepo) ''repo'' \<and>
   observe (runSm usualCalls freshRepo) ''repo'' = Some (100, A_FAILED)"
proof -
  have h1: "progressMap freshRepo ''repo'' \<noteq> None"
    and h2: "sorted (map fst threeUpdates)"
    and h3: "hundredOnlyTerminal freshRepo ''repo''"
    and h4: "list_all (\<lambda>op. \<not> passes100 op) usualCalls"
    and h5: "map (\<lambda>c. Some (fst c)) threeUpdates = [Some 10, Some 20, Some 80]"
    by (simp_all add: status_eval threeUpdates_def usualCalls_def hundredOnlyTerminal_def
        terminalStatus_def)
  note inst = progress_as_passed [where st = freshRepo and url = "''repo''"
      and calls = threeUpdates and ops = usualCalls]
  from inst h1 h5 have c1: "progressAfter ''repo'' threeUpdates freshRepo = [Some 10, Some 20, Some 80]"
    by simp
  from inst h1 h2 have c2: "sorted (map the (progressAfter ''repo'' threeUpdates freshRepo))"
    by blast
  from inst h3 h4 have c3: "hundredOnlyTerminal (runSm usualCalls freshRepo) ''repo''"
    by blast
  have c5: "observe (runSm usualCalls freshRepo) ''repo'' = Some (100, A_FAILED)"
    by (simp add: usualCalls_def observe_def updateProgress_def completeAnalysis_def
        handleError_def markAsFailed_def findRetryStrategy_def retryStrategies_def
        RATE_LIMIT_def NETWORK_def STORAGE_def calculateBackoff_def attemptsOf_def
        status_eval cacheProgress_def set_cache_def invalidateProgress_def delete_cache_def Let_def)
  from h1 h2 h3 h4 c1 c2 c3 c5 show ?thesis by blast
qed

end
